theory Spec2Isabelle
  imports Main "HOL-Library.Word" "HOL-Library.AList"
begin

section \<open>Errors\<close>

text \<open>
  Go's \<^verbatim>\<open>error\<close> values, as far as the package tells them apart: an error made by
  \<^verbatim>\<open>errors.New\<close>, a driver error for which \<^verbatim>\<open>mongo.IsDuplicateKeyError\<close> answers true, and
  any other driver error. Every value carries the text that \<^verbatim>\<open>err.Error()\<close> returns.
  A Go \<^verbatim>\<open>error\<close> that may be \<^verbatim>\<open>nil\<close> is an \<open>error option\<close>.
\<close>

datatype error =
    ErrorsNew string
  | DuplicateKeyError string
  | DriverError string

fun Error :: "error \<Rightarrow> string" where
  "Error (ErrorsNew s) = s"
| "Error (DuplicateKeyError s) = s"
| "Error (DriverError s) = s"

fun IsDuplicateKeyError :: "error \<Rightarrow> bool" where
  "IsDuplicateKeyError (DuplicateKeyError s) = True"
| "IsDuplicateKeyError e = False"

section \<open>Configuration (config/mongo.go)\<close>

record mongoDB =
  Host :: string
  Port :: "64 word"
  Name :: string
  UseAtlas :: bool
  UseCompression :: bool

text \<open>The verb \<^verbatim>\<open>%d\<close> of \<^verbatim>\<open>fmt.Sprintf\<close> on an unsigned integer: its decimal digits.\<close>

fun decimal :: "nat \<Rightarrow> string" where
  "decimal n =
     (if n < 10 then [char_of (48 + n)]
      else decimal (n div 10) @ [char_of (48 + n mod 10)])"

declare decimal.simps [simp del]

section \<open>The connection manager (package mongo, client singleton)\<close>

text \<open>
  The driver is outside the repository. Its calls are functions on a backend state \<open>'w\<close>
  that they may change, so that a call that is made and a call that is not made differ.
  Contexts and timeouts only decide which outcome the driver reports; they are part of
  the driver's answer.
\<close>

datatype client = Client nat

datatype database = Database client string

datatype readpref = Primary

record clientOptions =
  URI :: string
  Compressors :: "string list"

record 'w driver =
  Connect :: "clientOptions \<Rightarrow> 'w \<Rightarrow> (error + client) \<times> 'w"
  Ping :: "client \<Rightarrow> readpref option \<Rightarrow> 'w \<Rightarrow> error option \<times> 'w"

text \<open>
  The package variables: \<^verbatim>\<open>clientInstance\<close> (\<open>None\<close> is \<^verbatim>\<open>nil\<close>) and \<^verbatim>\<open>singleExecution\<close>,
  a \<^verbatim>\<open>sync.Once\<close>, here the flag saying that its function has run.
\<close>

record globals =
  clientInstance :: "client option"
  singleExecution :: bool

definition initial_globals :: globals where
  "initial_globals = \<lparr>clientInstance = None, singleExecution = False\<rparr>"

definition mongoURI :: "mongoDB \<Rightarrow> string" where
  "mongoURI cfg =
     (if UseAtlas cfg
      then ''mongodb+srv://'' @ Host cfg @ ''/'' @ Name cfg @ ''?'' @ ''retryWrites=true&w=majority''
      else ''mongodb://'' @ Host cfg @ '':'' @ decimal (unat (Port cfg)) @ ''/'' @ Name cfg)"

definition clientOptionsOf :: "mongoDB \<Rightarrow> clientOptions" where
  "clientOptionsOf cfg =
     \<lparr>URI = mongoURI cfg,
      Compressors = (if UseCompression cfg then [''zstd''] else [])\<rparr>"

text \<open>
  \<^verbatim>\<open>initialize\<close>: \<^verbatim>\<open>clientInstanceError\<close> is a local variable of the call, \<^verbatim>\<open>nil\<close> at
  its start and written only inside the function given to \<^verbatim>\<open>singleExecution.Do\<close>. When the
  \<^verbatim>\<open>Once\<close> has already run, \<^verbatim>\<open>Do\<close> returns at once and the local is still \<^verbatim>\<open>nil\<close>.
\<close>

definition initialize ::
  "'w driver \<Rightarrow> mongoDB \<Rightarrow> globals \<Rightarrow> 'w \<Rightarrow> error option \<times> globals \<times> 'w" where
  "initialize drv cfg g w =
     (if singleExecution g then (None, g, w)
      else
        (case Connect drv (clientOptionsOf cfg) w of
           (Inl err, w1) \<Rightarrow> (Some err, g\<lparr>singleExecution := True\<rparr>, w1)
         | (Inr cl, w1) \<Rightarrow>
             (case Ping drv cl None w1 of
                (Some err, w2) \<Rightarrow> (Some err, g\<lparr>singleExecution := True\<rparr>, w2)
              | (None, w2) \<Rightarrow>
                  (None, g\<lparr>clientInstance := Some cl, singleExecution := True\<rparr>, w2))))"

text \<open>
  \<^verbatim>\<open>DB\<close> returns a Go pair \<^verbatim>\<open>(*mongo.Database, error)\<close>, each of which may be \<^verbatim>\<open>nil\<close>:
  a pair of options.
\<close>

definition DB ::
  "'w driver \<Rightarrow> mongoDB \<Rightarrow> globals \<Rightarrow> 'w
     \<Rightarrow> (database option \<times> error option) \<times> globals \<times> 'w" where
  "DB drv cfg g w =
     (case initialize drv cfg g w of
        (Some err, g1, w1) \<Rightarrow> ((None, Some err), g1, w1)
      | (None, g1, w1) \<Rightarrow>
          (case clientInstance g1 of
             None \<Rightarrow> ((None, Some (ErrorsNew ''mongo client was not initialized'')), g1, w1)
           | Some cl \<Rightarrow> ((Some (Database cl (Name cfg)), None), g1, w1)))"

text \<open>A caller that calls \<^verbatim>\<open>DB\<close> \<open>n\<close> times in a row; the results in call order.\<close>

primrec DB_calls ::
  "'w driver \<Rightarrow> mongoDB \<Rightarrow> nat \<Rightarrow> globals \<Rightarrow> 'w
     \<Rightarrow> (database option \<times> error option) list \<times> globals \<times> 'w" where
  "DB_calls drv cfg 0 g w = ([], g, w)"
| "DB_calls drv cfg (Suc n) g w =
     (case DB drv cfg g w of
        (r, g1, w1) \<Rightarrow>
          (case DB_calls drv cfg n g1 w1 of (rs, g2, w2) \<Rightarrow> (r # rs, g2, w2)))"

definition Check :: "'w driver \<Rightarrow> globals \<Rightarrow> 'w \<Rightarrow> error list \<times> globals \<times> 'w" where
  "Check drv g w =
     (case clientInstance g of
        None \<Rightarrow> ([] @ [ErrorsNew ''the mongo client is nil''], g, w)
      | Some cl \<Rightarrow>
          (case Ping drv cl (Some Primary) w of
             (Some err, w1) \<Rightarrow>
               ([] @ [ErrorsNew (''the mongo check has failed: '' @ Error err)], g, w1)
           | (None, w1) \<Rightarrow> ([], g, w1)))"

text \<open>
  Drivers for concrete runs. Their backend state counts the calls they received
  (connection attempts, pings). \<open>refusing_driver\<close> fails every connection attempt;
  \<open>healthy_driver\<close> connects and answers every ping; \<open>unreachable_driver\<close> connects once
  and fails every ping made with a read preference (the health check's).
\<close>

definition refusing_driver :: "(nat \<times> nat) driver" where
  "refusing_driver =
     \<lparr>Connect = (\<lambda>opts (c, p). (Inl (DriverError ''connection refused''), (Suc c, p))),
      Ping = (\<lambda>cl rp (c, p). (None, (c, Suc p)))\<rparr>"

definition healthy_driver :: "(nat \<times> nat) driver" where
  "healthy_driver =
     \<lparr>Connect = (\<lambda>opts (c, p). (Inr (Client c), (Suc c, p))),
      Ping = (\<lambda>cl rp (c, p). (None, (c, Suc p)))\<rparr>"

definition unreachable_driver :: "(nat \<times> nat) driver" where
  "unreachable_driver =
     \<lparr>Connect = (\<lambda>opts (c, p). (Inr (Client c), (Suc c, p))),
      Ping = (\<lambda>cl rp (c, p).
        (case rp of None \<Rightarrow> None | Some r \<Rightarrow> Some (DriverError ''server selection timeout''),
         (c, Suc p)))\<rparr>"

definition local_config :: mongoDB where
  "local_config =
     \<lparr>Host = ''localhost'', Port = 27017, Name = ''goauth'',
      UseAtlas = False, UseCompression = False\<rparr>"

section \<open>The CRUD DAO (mongo/crud_dao.go): the driver as the DAO sees it, Create and Update\<close>

type_synonym int64 = "64 word"

text \<open>Go's \<^verbatim>\<open>int64\<close> is a 64-bit word (the counts are compared with 0 and 1 only).
  The driver's \<^verbatim>\<open>*mongo.UpdateResult\<close>, read by \<^verbatim>\<open>Update\<close> when the driver reports no error.\<close>

record driverUpdateResult =
  MatchedCount :: int64
  ModifiedCount :: int64
  UpsertedCount :: int64

text \<open>The package's own \<^verbatim>\<open>UpdateResult\<close>.\<close>

record UpdateResult =
  NotFound :: bool
  UniqueError :: bool
  Inserted :: bool

text \<open>
  A cursor of the driver: the documents that \<^verbatim>\<open>Next\<close> will still deliver, the error that
  \<^verbatim>\<open>Next\<close> meets after them (\<open>None\<close>: the result set just ends), what \<^verbatim>\<open>cur.Err()\<close>
  answers, whether \<^verbatim>\<open>Close\<close> was called, and what \<^verbatim>\<open>Close\<close> answers.
\<close>

record 'r cursor =
  pending :: "'r list"
  failure :: "error option"
  Err :: "error option"
  closed :: bool
  closeError :: "error option"

text \<open>\<^verbatim>\<open>cur.Next(ctx)\<close>: the document that became current (\<open>None\<close> when it answers false).\<close>

definition Next :: "'r cursor \<Rightarrow> 'r option \<times> 'r cursor" where
  "Next c =
     (case pending c of
        [] \<Rightarrow> (None, c\<lparr>Err := failure c\<rparr>)
      | r # rs \<Rightarrow> (Some r, c\<lparr>pending := rs\<rparr>))"

definition Close :: "'r cursor \<Rightarrow> error option \<times> 'r cursor" where
  "Close c = (closeError c, c\<lparr>closed := True\<rparr>)"

text \<open>
  \<^verbatim>\<open>dao.collection\<close>: the driver calls the DAO makes, on the backend state \<open>'w\<close>.
  \<open>'d\<close> is the document type \<^verbatim>\<open>T\<close>, \<open>'r\<close> a raw record of a cursor, \<open>'b\<close> is \<^verbatim>\<open>bson.M\<close>
  (filters and updates), \<open>'o\<close> the find options and \<open>'p\<close> an aggregation pipeline.
  The third argument of \<open>UpdateOne\<close> is the upsert flag of its options.
\<close>

record ('d, 'r, 'b, 'o, 'p, 'w) collection =
  InsertOne :: "'d \<Rightarrow> 'w \<Rightarrow> error option \<times> 'w"
  UpdateOne :: "'b \<Rightarrow> 'b \<Rightarrow> bool \<Rightarrow> 'w \<Rightarrow> (error + driverUpdateResult) \<times> 'w"
  Find :: "'b \<Rightarrow> 'o \<Rightarrow> 'w \<Rightarrow> (error + 'r cursor) \<times> 'w"
  Aggregate :: "'p \<Rightarrow> 'w \<Rightarrow> (error + 'r cursor) \<times> 'w"

text \<open>
  \<^verbatim>\<open>Create\<close> hands \<open>t\<close> to \<^verbatim>\<open>InsertOne\<close> as it received it. Logging is left out: it
  changes neither the results nor the backend.
\<close>

definition Create ::
  "('d, 'r, 'b, 'o, 'p, 'w) collection \<Rightarrow> 'd \<Rightarrow> 'w \<Rightarrow> (bool \<times> error option) \<times> 'w" where
  "Create coll t w =
     (case InsertOne coll t w of
        (Some err, w1) \<Rightarrow>
          if IsDuplicateKeyError err then ((False, None), w1)
          else ((False, Some err), w1)
      | (None, w1) \<Rightarrow> ((True, None), w1))"

definition Update ::
  "('d, 'r, 'b, 'o, 'p, 'w) collection \<Rightarrow> 'b \<Rightarrow> 'b \<Rightarrow> bool \<Rightarrow> 'w
     \<Rightarrow> (UpdateResult \<times> error option) \<times> 'w" where
  "Update coll fltr upd withUpsert w =
     (case UpdateOne coll fltr upd withUpsert w of
        (Inl err, w1) \<Rightarrow>
          if IsDuplicateKeyError err
          then ((\<lparr>NotFound = False, UniqueError = True, Inserted = False\<rparr>, None), w1)
          else ((\<lparr>NotFound = False, UniqueError = False, Inserted = False\<rparr>, Some err), w1)
      | (Inr ur, w1) \<Rightarrow>
          if \<not> withUpsert \<and> MatchedCount ur = 0
          then ((\<lparr>NotFound = True, UniqueError = False, Inserted = False\<rparr>, None), w1)
          else ((\<lparr>NotFound = False, UniqueError = False,
                  Inserted = (UpsertedCount ur = 1)\<rparr>, None), w1))"

section \<open>The concurrent decode pipeline\<close>

text \<open>
  \<^verbatim>\<open>concurrentDecode\<close> runs one main goroutine (the \<^verbatim>\<open>for cur.Next(ctx)\<close> loop, then
  \<^verbatim>\<open>wg.Wait()\<close>) and one goroutine per dispatched record. The model is an interleaving
  of atomic steps chosen by a schedule. The shared variables are \<^verbatim>\<open>err\<close>, \<^verbatim>\<open>indexedRes\<close>
  and \<^verbatim>\<open>i\<close>; each read and each write of \<^verbatim>\<open>err\<close> is a step of its own, since the source
  does not guard it, so a goroutine may test \<^verbatim>\<open>err == nil\<close> and write \<^verbatim>\<open>err\<close> after
  another one has written it. Accesses are taken as sequentially consistent.

  A goroutine receives \<^verbatim>\<open>copyCur\<close>, a copy of the cursor, and uses it for \<^verbatim>\<open>Decode\<close> only,
  which reads the document that was current when the copy was made: the model's goroutine
  carries that document. It is \<open>Decoding\<close> until it has called \<^verbatim>\<open>cur.Decode(r)\<close> and, on
  a decode error, tested \<^verbatim>\<open>err == nil\<close>; \<open>WritingErr e\<close> is the goroutine about to
  execute \<^verbatim>\<open>err = decodeError\<close>.

  \<^verbatim>\<open>i\<close> is a Go \<^verbatim>\<open>int\<close>; it counts fetched records and stays far from the 64-bit
  range, so it is an unbounded integer here. \<^verbatim>\<open>indexedRes\<close> is a map with one entry per
  key, kept as an association list; \<^verbatim>\<open>len\<close> is its number of entries.
\<close>

datatype phase = Decoding | WritingErr error

record ('r, 't) decode_state =
  cd_cur :: "'r cursor"
  cd_i :: int
  cd_err :: "error option"
  cd_indexedRes :: "(int \<times> 't) list"
  cd_goroutines :: "(int \<times> 'r \<times> phase) list"
  cd_looping :: bool

datatype choice = MainStep | GoStep nat

definition decode_start :: "'r cursor \<Rightarrow> ('r, 't) decode_state" where
  "decode_start c =
     \<lparr>cd_cur = c, cd_i = - 1, cd_err = None, cd_indexedRes = [],
      cd_goroutines = [], cd_looping = True\<rparr>"

text \<open>
  One turn of the loop: \<^verbatim>\<open>cur.Next(ctx)\<close>, the test of \<^verbatim>\<open>err\<close>, and the dispatch of a
  goroutine with \<^verbatim>\<open>i\<close> incremented. After the loop the main goroutine waits in
  \<^verbatim>\<open>wg.Wait()\<close> and has no step of its own.
\<close>

definition main_step :: "('r, 't) decode_state \<Rightarrow> ('r, 't) decode_state" where
  "main_step s =
     (if \<not> cd_looping s then s
      else
        (case Next (cd_cur s) of
           (None, c) \<Rightarrow> s\<lparr>cd_cur := c, cd_looping := False\<rparr>
         | (Some r, c) \<Rightarrow>
             if cd_err s \<noteq> None then s\<lparr>cd_cur := c, cd_looping := False\<rparr>
             else s\<lparr>cd_cur := c, cd_i := cd_i s + 1,
                     cd_goroutines := cd_goroutines s @ [(cd_i s + 1, r, Decoding)]\<rparr>))"

text \<open>
  One step of the \<open>n\<close>-th running goroutine; a goroutine that returns leaves the list
  (\<^verbatim>\<open>wg.Done()\<close>). A choice that names no running goroutine changes nothing.
\<close>

definition go_step ::
  "('r \<Rightarrow> error + 't) \<Rightarrow> nat \<Rightarrow> ('r, 't) decode_state \<Rightarrow> ('r, 't) decode_state" where
  "go_step Decode n s =
     (if length (cd_goroutines s) \<le> n then s
      else
        (case cd_goroutines s ! n of
           (j, r, Decoding) \<Rightarrow>
             (case Decode r of
                Inl decodeError \<Rightarrow>
                  if cd_err s = None
                  then s\<lparr>cd_goroutines := (cd_goroutines s)[n := (j, r, WritingErr decodeError)]\<rparr>
                  else s\<lparr>cd_goroutines := take n (cd_goroutines s) @ drop (Suc n) (cd_goroutines s)\<rparr>
              | Inr v \<Rightarrow>
                  s\<lparr>cd_indexedRes := AList.update j v (cd_indexedRes s),
                    cd_goroutines := take n (cd_goroutines s) @ drop (Suc n) (cd_goroutines s)\<rparr>)
         | (j, r, WritingErr decodeError) \<Rightarrow>
             s\<lparr>cd_err := Some decodeError,
               cd_goroutines := take n (cd_goroutines s) @ drop (Suc n) (cd_goroutines s)\<rparr>))"

fun step ::
  "('r \<Rightarrow> error + 't) \<Rightarrow> choice \<Rightarrow> ('r, 't) decode_state \<Rightarrow> ('r, 't) decode_state" where
  "step Decode MainStep s = main_step s"
| "step Decode (GoStep n) s = go_step Decode n s"

fun run ::
  "('r \<Rightarrow> error + 't) \<Rightarrow> choice list \<Rightarrow> ('r, 't) decode_state \<Rightarrow> ('r, 't) decode_state" where
  "run Decode [] s = s"
| "run Decode (c # cs) s = run Decode cs (step Decode c s)"

text \<open>\<^verbatim>\<open>wg.Wait()\<close> returns when the loop is over and every goroutine has returned.\<close>

definition waited :: "('r, 't) decode_state \<Rightarrow> bool" where
  "waited s \<longleftrightarrow> \<not> cd_looping s \<and> cd_goroutines s = []"

text \<open>
  The code after \<^verbatim>\<open>wg.Wait()\<close>. A Go slice that may be \<^verbatim>\<open>nil\<close> is an option; reading a
  key that the map does not hold gives the zero value of \<^verbatim>\<open>T\<close>.
\<close>

definition collect ::
  "'t \<Rightarrow> ('r, 't) decode_state \<Rightarrow> 't list option \<times> error option" where
  "collect zero s =
     (case cd_err s of
        Some e \<Rightarrow> (None, Some e)
      | None \<Rightarrow>
          (let resLen = length (cd_indexedRes s)
           in (Some (map (\<lambda>j. case map_of (cd_indexedRes s) (int j) of
                                 Some v \<Rightarrow> v | None \<Rightarrow> zero) [0..<resLen]), None)))"

text \<open>
  The call under a schedule: \<open>None\<close> when the schedule ends before \<^verbatim>\<open>wg.Wait()\<close> can
  return, else the returned pair and the cursor as the call leaves it.
\<close>

definition concurrentDecode ::
  "('r \<Rightarrow> error + 't) \<Rightarrow> 't \<Rightarrow> choice list \<Rightarrow> 'r cursor
     \<Rightarrow> (('t list option \<times> error option) \<times> 'r cursor) option" where
  "concurrentDecode Decode zero sched c =
     (let s = run Decode sched (decode_start c)
      in if waited s then Some (collect zero s, cd_cur s) else None)"

text \<open>
  What follows the driver call in \<^verbatim>\<open>FindMany\<close> and \<^verbatim>\<open>Aggregate\<close>; the two functions have
  the same text from there on. The result holds the returned pair and the cursor, when
  one was obtained.
\<close>

definition decodeAndClose ::
  "('r \<Rightarrow> error + 't) \<Rightarrow> 't \<Rightarrow> choice list \<Rightarrow> 'r cursor
     \<Rightarrow> (('t list option \<times> error option) \<times> 'r cursor option) option" where
  "decodeAndClose Decode zero sched c =
     (case concurrentDecode Decode zero sched c of
        None \<Rightarrow> None
      | Some ((res, Some err), c1) \<Rightarrow> Some ((None, Some err), Some c1)
      | Some ((res, None), c1) \<Rightarrow>
          (case Err c1 of
             Some err \<Rightarrow> Some ((None, Some err), Some c1)
           | None \<Rightarrow>
               (case Close c1 of
                  (Some err, c2) \<Rightarrow> Some ((None, Some err), Some c2)
                | (None, c2) \<Rightarrow> Some ((res, None), Some c2))))"

definition FindMany ::
  "('d, 'r, 'b, 'o, 'p, 'w) collection \<Rightarrow> ('r \<Rightarrow> error + 't) \<Rightarrow> 't \<Rightarrow> choice list
     \<Rightarrow> 'b \<Rightarrow> 'o \<Rightarrow> 'w
     \<Rightarrow> ((('t list option \<times> error option) \<times> 'r cursor option) \<times> 'w) option" where
  "FindMany coll Decode zero sched fltr opts w =
     (case Find coll fltr opts w of
        (Inl err, w1) \<Rightarrow> Some (((None, Some err), None), w1)
      | (Inr c, w1) \<Rightarrow>
          (case decodeAndClose Decode zero sched c of
             None \<Rightarrow> None
           | Some out \<Rightarrow> Some (out, w1)))"

definition AggregateMany ::
  "('d, 'r, 'b, 'o, 'p, 'w) collection \<Rightarrow> ('r \<Rightarrow> error + 't) \<Rightarrow> 't \<Rightarrow> choice list
     \<Rightarrow> 'p \<Rightarrow> 'w
     \<Rightarrow> ((('t list option \<times> error option) \<times> 'r cursor option) \<times> 'w) option" where
  "AggregateMany coll Decode zero sched pipeline w =
     (case Aggregate coll pipeline w of
        (Inl err, w1) \<Rightarrow> Some (((None, Some err), None), w1)
      | (Inr c, w1) \<Rightarrow>
          (case decodeAndClose Decode zero sched c of
             None \<Rightarrow> None
           | Some out \<Rightarrow> Some (out, w1)))"

text \<open>Decoding the records one at a time, in fetch order, stopping at the first failure.\<close>

fun sequentialDecode :: "('r \<Rightarrow> error + 't) \<Rightarrow> 'r list \<Rightarrow> error + 't list" where
  "sequentialDecode Decode [] = Inr []"
| "sequentialDecode Decode (r # rs) =
     (case Decode r of
        Inl e \<Rightarrow> Inl e
      | Inr v \<Rightarrow>
          (case sequentialDecode Decode rs of
             Inl e \<Rightarrow> Inl e
           | Inr vs \<Rightarrow> Inr (v # vs)))"

section \<open>An in-memory collection for concrete runs\<close>

text \<open>
  A small stand-in for a collection of the database, used to run the operations on
  concrete inputs. A document is a list of fields with their values; the backend state
  is the list of stored documents; the field \<open>email\<close> has a unique index. A filter matches
  the documents that hold each of its fields with the given value; an update sets its
  fields; an upsert that matches nothing stores the filter's fields with the update
  applied. A write that fails stores nothing.
\<close>

type_synonym bsonM = "(string \<times> string) list"

definition matches :: "bsonM \<Rightarrow> bsonM \<Rightarrow> bool" where
  "matches fltr d = list_all (\<lambda>(k, v). map_of d k = Some v) fltr"

definition set_fields :: "bsonM \<Rightarrow> bsonM \<Rightarrow> bsonM" where
  "set_fields upd d = foldl (\<lambda>acc (k, v). AList.update k v acc) d upd"

definition clashes :: "bsonM \<Rightarrow> bsonM list \<Rightarrow> bool" where
  "clashes d docs =
     list_ex (\<lambda>d'. map_of d' ''email'' \<noteq> None \<and> map_of d' ''email'' = map_of d ''email'') docs"

fun first_match :: "('a \<Rightarrow> bool) \<Rightarrow> 'a list \<Rightarrow> nat option" where
  "first_match P [] = None"
| "first_match P (x # xs) =
     (if P x then Some 0 else map_option Suc (first_match P xs))"

definition open_cursor :: "'r list \<Rightarrow> 'r cursor" where
  "open_cursor rs =
     \<lparr>pending = rs, failure = None, Err = None, closed = False, closeError = None\<rparr>"

definition memory_collection :: "(bsonM, bsonM, bsonM, unit, bsonM, bsonM list) collection" where
  "memory_collection =
     \<lparr>InsertOne = (\<lambda>d docs.
        if clashes d docs then (Some (DuplicateKeyError ''E11000 duplicate key error''), docs)
        else (None, docs @ [d])),
      UpdateOne = (\<lambda>fltr upd upsert docs.
        case first_match (matches fltr) docs of
          None \<Rightarrow>
            if upsert
            then (if clashes (set_fields upd fltr) docs
                  then (Inl (DuplicateKeyError ''E11000 duplicate key error''), docs)
                  else (Inr \<lparr>MatchedCount = 0, ModifiedCount = 0, UpsertedCount = 1\<rparr>,
                        docs @ [set_fields upd fltr]))
            else (Inr \<lparr>MatchedCount = 0, ModifiedCount = 0, UpsertedCount = 0\<rparr>, docs)
        | Some n \<Rightarrow>
            if clashes (set_fields upd (docs ! n)) (take n docs @ drop (Suc n) docs)
            then (Inl (DuplicateKeyError ''E11000 duplicate key error''), docs)
            else (Inr \<lparr>MatchedCount = 1,
                       ModifiedCount = (if set_fields upd (docs ! n) = docs ! n then 0 else 1),
                       UpsertedCount = 0\<rparr>,
                  docs[n := set_fields upd (docs ! n)])),
      Find = (\<lambda>fltr opts docs. (Inr (open_cursor (filter (matches fltr) docs)), docs)),
      Aggregate = (\<lambda>pipeline docs. (Inr (open_cursor (filter (matches pipeline) docs)), docs))\<rparr>"

text \<open>
  A decoder for concrete runs: the document type is the e-mail address, and a record
  without the field \<open>email\<close> fails to decode.
\<close>

definition decodeEmail :: "bsonM \<Rightarrow> error + string" where
  "decodeEmail r =
     (case map_of r ''email'' of
        None \<Rightarrow> Inl (DriverError ''cannot decode: no email'')
      | Some e \<Rightarrow> Inr e)"

section \<open>Invariants of the pipeline\<close>

text \<open>
  The steps the running goroutines still have to take: a goroutine that has not decoded
  yet takes at most two (decode and test, then write \<^verbatim>\<open>err\<close>), one that is about to write
  takes one.
\<close>

fun phase_work :: "phase \<Rightarrow> nat" where
  "phase_work Decoding = 2"
| "phase_work (WritingErr e) = 1"

definition work :: "(int \<times> 'r \<times> phase) list \<Rightarrow> nat" where
  "work gs = sum_list (map (\<lambda>(j, r, ph). phase_work ph) gs)"

text \<open>
  A state from which the call can only fail: \<^verbatim>\<open>err\<close> is set, or a running goroutine
  holds a record that does not decode or is about to write \<^verbatim>\<open>err\<close>, or the loop still
  runs and a record that does not decode is yet to be fetched.
\<close>

definition doomed :: "('r \<Rightarrow> error + 't) \<Rightarrow> ('r, 't) decode_state \<Rightarrow> bool" where
  "doomed D s \<longleftrightarrow>
     cd_err s \<noteq> None \<or>
     (\<exists>(j, r, ph) \<in> set (cd_goroutines s).
        case ph of Decoding \<Rightarrow> isl (D r) | WritingErr e \<Rightarrow> True) \<or>
     (cd_looping s \<and> (\<exists>r \<in> set (pending (cd_cur s)). isl (D r)))"

text \<open>
  The state of a call on the records \<open>recs\<close>, all of which decode: \<^verbatim>\<open>i\<close> is the index
  of the last record dispatched, the cursor holds the records after it, every running
  goroutine holds the record of its index, every entry of \<^verbatim>\<open>indexedRes\<close> is the decoded
  record of its key, and every index up to \<^verbatim>\<open>i\<close> is running or stored.
\<close>

definition on_track :: "('r \<Rightarrow> error + 't) \<Rightarrow> 'r list \<Rightarrow> ('r, 't) decode_state \<Rightarrow> bool" where
  "on_track D recs s \<longleftrightarrow>
     - 1 \<le> cd_i s \<and> cd_i s < int (length recs) \<and>
     cd_err s = None \<and>
     (if cd_looping s then pending (cd_cur s) = drop (nat (cd_i s + 1)) recs
      else cd_i s + 1 = int (length recs)) \<and>
     (\<forall>(j, r, ph) \<in> set (cd_goroutines s).
        ph = Decoding \<and> 0 \<le> j \<and> j \<le> cd_i s \<and> r = recs ! nat j) \<and>
     (\<forall>(j, v) \<in> set (cd_indexedRes s).
        0 \<le> j \<and> j \<le> cd_i s \<and> D (recs ! nat j) = Inr v) \<and>
     (\<forall>j \<in> {0..cd_i s}.
        j \<in> fst ` set (cd_goroutines s) \<or> j \<in> fst ` set (cd_indexedRes s)) \<and>
     distinct (map fst (cd_indexedRes s))"

section \<open>Evaluation rules\<close>

lemmas memory_simps =
  memory_collection_def matches_def set_fields_def clashes_def open_cursor_def

lemmas decode_simps =
  concurrentDecode_def decodeAndClose_def decode_start_def main_step_def
  go_step_def Next_def Close_def waited_def collect_def

section \<open>Every schedule can be completed\<close>

lemma run_append: "run D (a @ b) s = run D b (run D a s)"
  by (induction a arbitrary: s) simp_all

lemma loop_ends: "\<exists>m. \<not> cd_looping (run D m s)"
proof (induction "length (pending (cd_cur s))" arbitrary: s rule: less_induct)
  case less
  show ?case
  proof (cases "cd_looping s")
    case False
    then have "\<not> cd_looping (run D [] s)" by simp
    then show ?thesis by blast
  next
    case True
    show ?thesis
    proof (cases "cd_looping (main_step s)")
      case False
      then have "\<not> cd_looping (run D [MainStep] s)" by simp
      then show ?thesis by blast
    next
      case still: True
      with True have "length (pending (cd_cur (main_step s))) < length (pending (cd_cur s))"
        by (auto simp: main_step_def Next_def split: list.splits if_splits)
      from less [OF this] obtain m where "\<not> cd_looping (run D m (main_step s))" by blast
      then have "\<not> cd_looping (run D (MainStep # m) s)" by simp
      then show ?thesis by blast
    qed
  qed
qed

lemma go_step_first:
  assumes "\<not> cd_looping s" and "cd_goroutines s \<noteq> []"
  shows "\<not> cd_looping (go_step D 0 s)"
    and "work (cd_goroutines (go_step D 0 s)) < work (cd_goroutines s)"
  using assms
  by (cases "cd_goroutines s";
      auto simp: go_step_def work_def split: prod.splits phase.splits sum.splits)+

lemma goroutines_end: "\<not> cd_looping s \<Longrightarrow> \<exists>m. waited (run D m s)"
proof (induction "work (cd_goroutines s)" arbitrary: s rule: less_induct)
  case less
  show ?case
  proof (cases "cd_goroutines s = []")
    case True
    with less.prems have "waited (run D [] s)" by (simp add: waited_def)
    then show ?thesis by blast
  next
    case False
    from go_step_first [OF less.prems False, of D] less.hyps
    obtain m where "waited (run D m (go_step D 0 s))" by blast
    then have "waited (run D (GoStep 0 # m) s)" by simp
    then show ?thesis by blast
  qed
qed

lemma run_completes: "\<exists>more. waited (run D (sched @ more) s)"
proof -
  obtain m1 where "\<not> cd_looping (run D m1 (run D sched s))"
    using loop_ends by blast
  from goroutines_end [OF this] obtain m2
    where "waited (run D m2 (run D m1 (run D sched s)))" by blast
  then have "waited (run D (sched @ (m1 @ m2)) s)" by (simp add: run_append)
  then show ?thesis by blast
qed

section \<open>A record that does not decode dooms the call\<close>

lemma set_without_nth:
  "n < length gs \<Longrightarrow> set gs = insert (gs ! n) (set (take n gs @ drop (Suc n) gs))"
proof -
  assume "n < length gs"
  then have "gs = take n gs @ gs ! n # drop (Suc n) gs" by (rule id_take_nth_drop)
  then have "set gs = set (take n gs @ gs ! n # drop (Suc n) gs)" by simp
  then show ?thesis by simp
qed

lemma doomed_main_step: "doomed D s \<Longrightarrow> doomed D (main_step s)"
  by (auto simp: doomed_def main_step_def Next_def split: list.splits if_splits)

lemma doomed_go_step:
  assumes "doomed D s"
  shows "doomed D (go_step D n s)"
proof (cases "n < length (cd_goroutines s)")
  case False
  with assms show ?thesis by (simp add: go_step_def)
next
  case True
  obtain j r ph where g: "cd_goroutines s ! n = (j, r, ph)" by (cases "cd_goroutines s ! n")
  note sw = set_without_nth [OF True]
  show ?thesis
  proof (cases ph)
    case (WritingErr e)
    with True g show ?thesis by (simp add: go_step_def doomed_def)
  next
    case Decoding
    show ?thesis
    proof (cases "D r")
      case (Inl e)
      with True g Decoding show ?thesis
        by (auto simp: go_step_def doomed_def set_update_memI intro!: bexI [of _ "(j, r, WritingErr e)"])
    next
      case (Inr v)
      with True g Decoding assms sw show ?thesis
        by (auto simp: go_step_def doomed_def split: phase.splits)
    qed
  qed
qed

lemma doomed_run: "doomed D s \<Longrightarrow> doomed D (run D sched s)"
proof (induction sched arbitrary: s)
  case Nil
  then show ?case by simp
next
  case (Cons c cs)
  then show ?case by (cases c) (simp_all add: doomed_main_step doomed_go_step)
qed

lemma doomed_waited: "doomed D s \<Longrightarrow> waited s \<Longrightarrow> \<exists>e. collect zero s = (None, Some e)"
  by (auto simp: doomed_def waited_def collect_def)

lemma doomed_start: "r \<in> set (pending c) \<Longrightarrow> D r = Inl e \<Longrightarrow> doomed D (decode_start c)"
  by (auto simp: doomed_def decode_start_def intro!: bexI [of _ r])

section \<open>When every record decodes, the slots are filled in fetch order\<close>

lemma sequentialDecode_Inr:
  "sequentialDecode D recs = Inr vs \<Longrightarrow>
   length vs = length recs \<and> (\<forall>n < length recs. D (recs ! n) = Inr (vs ! n))"
proof (induction recs arbitrary: vs)
  case Nil
  then show ?case by simp
next
  case (Cons r rs)
  then show ?case
    by (auto split: sum.splits simp: nth_Cons split: nat.splits)
qed

lemma on_track_start: "on_track D (pending c) (decode_start c)"
  by (simp add: on_track_def decode_start_def)

lemma on_track_main_step:
  assumes "on_track D recs s"
  shows "on_track D recs (main_step s)"
proof (cases "cd_looping s")
  case False
  then show ?thesis using assms by (simp add: main_step_def)
next
  case True
  let ?n = "nat (cd_i s + 1)"
  from assms True have p: "pending (cd_cur s) = drop ?n recs"
    and i: "- 1 \<le> cd_i s" "cd_i s < int (length recs)" and e: "cd_err s = None"
    by (simp_all add: on_track_def)
  show ?thesis
  proof (cases "pending (cd_cur s)")
    case Nil
    with p i have len: "cd_i s + 1 = int (length recs)" by simp
    from True Nil have ms: "main_step s = s\<lparr>cd_cur := (cd_cur s)\<lparr>Err := failure (cd_cur s)\<rparr>,
        cd_looping := False\<rparr>"
      by (simp add: main_step_def Next_def)
    from assms len show ?thesis
      unfolding ms by (simp add: on_track_def)
  next
    case (Cons r rs)
    with p have lt: "?n < length recs" by (metis drop_eq_Nil2 list.distinct(1) not_le)
    with p Cons have r: "r = recs ! ?n" and rs: "rs = drop (Suc ?n) recs"
      by (simp_all add: Cons_nth_drop_Suc [symmetric])
    from i have n1: "nat (cd_i s + 1 + 1) = Suc ?n" by simp
    from i lt have i1: "cd_i s + 1 < int (length recs)" by simp
    from True Cons e have ms: "main_step s =
        s\<lparr>cd_cur := (cd_cur s)\<lparr>pending := rs\<rparr>, cd_i := cd_i s + 1,
          cd_goroutines := cd_goroutines s @ [(cd_i s + 1, r, Decoding)]\<rparr>"
      by (simp add: main_step_def Next_def)
    from assms True r rs n1 i1 i show ?thesis
      unfolding ms by (auto simp: on_track_def)
  qed
qed

lemma set_AList_update:
  assumes "distinct (map fst al)"
  shows "set (AList.update k v al) \<subseteq> insert (k, v) (set al)"
proof
  fix x assume x: "x \<in> set (AList.update k v al)"
  obtain a b where ab: "x = (a, b)" by (cases x)
  from assms have "distinct (map fst (AList.update k v al))" by (rule distinct_update)
  with x ab have "map_of (AList.update k v al) a = Some b" by simp
  then have "a = k \<and> v = b \<or> a \<noteq> k \<and> map_of al a = Some b"
    by (simp add: update_Some_unfold)
  with ab show "x \<in> insert (k, v) (set al)"
    by (auto dest: map_of_SomeD)
qed

lemma on_track_go_step:
  assumes inv: "on_track D recs s"
    and ok: "\<And>n. n < length recs \<Longrightarrow> \<exists>v. D (recs ! n) = Inr v"
  shows "on_track D recs (go_step D n s)"
proof (cases "n < length (cd_goroutines s)")
  case False
  with inv show ?thesis by (simp add: go_step_def)
next
  case True
  let ?gs = "cd_goroutines s"
  let ?rest = "take n ?gs @ drop (Suc n) ?gs"
  obtain j r ph where g: "?gs ! n = (j, r, ph)" by (cases "?gs ! n")
  from True g have mem: "(j, r, ph) \<in> set ?gs" by (metis nth_mem)
  with inv have ph: "ph = Decoding" and j: "0 \<le> j" "j \<le> cd_i s" and r: "r = recs ! nat j"
    by (auto simp: on_track_def)
  from inv have i: "cd_i s < int (length recs)" and d: "distinct (map fst (cd_indexedRes s))"
    by (simp_all add: on_track_def)
  from j i have "nat j < length recs" by simp
  from ok [OF this] r obtain v where v: "D r = Inr v" by blast
  from True g ph v have gs: "go_step D n s =
      s\<lparr>cd_indexedRes := AList.update j v (cd_indexedRes s), cd_goroutines := ?rest\<rparr>"
    by (simp add: go_step_def)
  note sw = set_without_nth [OF True]
  have sub: "set ?rest \<subseteq> set ?gs"
    using sw by blast
  have ent: "set (AList.update j v (cd_indexedRes s)) \<subseteq> insert (j, v) (set (cd_indexedRes s))"
    using d by (rule set_AList_update)
  have keys: "fst ` set (AList.update j v (cd_indexedRes s)) = {j} \<union> fst ` set (cd_indexedRes s)"
    by (rule dom_update)
  have cover: "k \<in> fst ` set ?rest \<or> k \<in> fst ` set (AList.update j v (cd_indexedRes s))"
    if k: "k \<in> {0..cd_i s}" for k
  proof -
    from inv k have "k \<in> fst ` set ?gs \<or> k \<in> fst ` set (cd_indexedRes s)"
      by (simp add: on_track_def)
    then show ?thesis
    proof
      assume "k \<in> fst ` set ?gs"
      then obtain x where x: "x \<in> set ?gs" "fst x = k" by auto
      with sw have "x = ?gs ! n \<or> x \<in> set ?rest" by blast
      with x g keys show ?thesis by auto
    next
      assume "k \<in> fst ` set (cd_indexedRes s)"
      with keys show ?thesis by blast
    qed
  qed
  have e1: "\<forall>(j, r, ph) \<in> set ?rest. ph = Decoding \<and> 0 \<le> j \<and> j \<le> cd_i s \<and> r = recs ! nat j"
    using inv sub by (auto simp: on_track_def)
  have e2: "\<forall>(k, u) \<in> set (AList.update j v (cd_indexedRes s)).
      0 \<le> k \<and> k \<le> cd_i s \<and> D (recs ! nat k) = Inr u"
    using inv ent j r v by (auto simp: on_track_def)
  have e3: "distinct (map fst (AList.update j v (cd_indexedRes s)))"
    using d by (rule distinct_update)
  from inv e1 e2 e3 cover show ?thesis
    unfolding gs by (simp add: on_track_def)
qed

lemma on_track_run:
  assumes "on_track D recs s"
    and ok: "\<And>n. n < length recs \<Longrightarrow> \<exists>v. D (recs ! n) = Inr v"
  shows "on_track D recs (run D sched s)"
  using assms(1)
proof (induction sched arbitrary: s)
  case Nil
  then show ?case by simp
next
  case (Cons c cs)
  then show ?case by (cases c) (simp_all add: on_track_main_step on_track_go_step ok)
qed

lemma on_track_waited:
  assumes inv: "on_track D recs s" and w: "waited s"
    and seq: "sequentialDecode D recs = Inr vs"
  shows "collect zero s = (Some vs, None)"
proof -
  let ?al = "cd_indexedRes s"
  from sequentialDecode_Inr [OF seq]
  have len: "length vs = length recs" and dec: "\<And>n. n < length recs \<Longrightarrow> D (recs ! n) = Inr (vs ! n)"
    by simp_all
  from inv w have i: "cd_i s + 1 = int (length recs)" and e: "cd_err s = None"
    and d: "distinct (map fst ?al)"
    by (simp_all add: on_track_def waited_def)
  from inv w have cov: "\<forall>k \<in> {0..cd_i s}. k \<in> fst ` set ?al"
    by (simp add: on_track_def waited_def)
  from inv have ent: "\<And>k u. (k, u) \<in> set ?al \<Longrightarrow> 0 \<le> k \<and> k \<le> cd_i s \<and> D (recs ! nat k) = Inr u"
    by (auto simp: on_track_def)
  have keys: "set (map fst ?al) = {0..cd_i s}"
    using cov ent by force
  have "length ?al = length (map fst ?al)" by simp
  also have "\<dots> = card (set (map fst ?al))" using distinct_card [OF d] by simp
  also have "\<dots> = length recs" using keys i by simp
  finally have n: "length ?al = length recs" .
  have val: "map_of ?al (int k) = Some (vs ! k)" if k: "k < length recs" for k
  proof -
    from k i have "int k \<in> {0..cd_i s}" by simp
    with cov obtain u where u: "(int k, u) \<in> set ?al" by force
    from ent [OF u] dec [OF k] have "u = vs ! k" by simp
    with u d show ?thesis by simp
  qed
  have "map (\<lambda>j. case map_of ?al (int j) of Some v \<Rightarrow> v | None \<Rightarrow> zero) [0..<length recs] = vs"
    using len val by (intro nth_equalityI) simp_all
  with e n show ?thesis by (simp add: collect_def)
qed

section \<open>The call as a whole\<close>

lemma concurrentDecode_returns: "\<exists>more. concurrentDecode D zero (sched @ more) c \<noteq> None"
proof -
  from run_completes obtain more where "waited (run D (sched @ more) (decode_start c))"
    by blast
  then have "concurrentDecode D zero (sched @ more) c \<noteq> None"
    by (simp add: concurrentDecode_def Let_def)
  then show ?thesis by blast
qed

lemma concurrentDecode_all_decoded:
  assumes seq: "sequentialDecode D (pending c) = Inr vs"
    and ret: "concurrentDecode D zero sched c = Some ((res, err), c1)"
  shows "res = Some vs \<and> err = None"
proof -
  let ?s = "run D sched (decode_start c)"
  from ret have w: "waited ?s" and out: "collect zero ?s = (res, err)"
    by (simp_all add: concurrentDecode_def Let_def split: if_splits)
  from sequentialDecode_Inr [OF seq]
  have ok: "\<And>n. n < length (pending c) \<Longrightarrow> \<exists>v. D (pending c ! n) = Inr v" by blast
  have "on_track D (pending c) ?s"
    using on_track_start ok by (rule on_track_run)
  from on_track_waited [OF this w seq, of zero] out show ?thesis by simp
qed

lemma concurrentDecode_one_failure:
  assumes k: "k < length (pending c)" and bad: "D (pending c ! k) = Inl e"
    and ret: "concurrentDecode D zero sched c = Some ((res, err), c1)"
  shows "res = None \<and> err \<noteq> None"
proof -
  let ?s = "run D sched (decode_start c)"
  from ret have w: "waited ?s" and out: "collect zero ?s = (res, err)"
    by (simp_all add: concurrentDecode_def Let_def split: if_splits)
  from k have "pending c ! k \<in> set (pending c)" by simp
  then have "doomed D (decode_start c)" using bad by (rule doomed_start)
  then have "doomed D ?s" by (rule doomed_run)
  from doomed_waited [OF this w, of zero] out show ?thesis by auto
qed

lemma decodeAndClose_one_failure:
  assumes k: "k < length (pending c)" and bad: "D (pending c ! k) = Inl e"
    and ret: "decodeAndClose D zero sched c = Some ((res, err), c1)"
  shows "res = None \<and> err \<noteq> None"
proof (cases "concurrentDecode D zero sched c")
  case None
  with ret show ?thesis by (simp add: decodeAndClose_def)
next
  case (Some out)
  obtain res' err' c' where out: "out = ((res', err'), c')" by (metis prod.collapse)
  from concurrentDecode_one_failure [OF k bad Some [unfolded out]]
  obtain e' where "res' = None" "err' = Some e'" by auto
  with ret Some out show ?thesis by (auto simp: decodeAndClose_def)
qed

section \<open>The connection manager after a failed first attempt\<close>

lemma DB_after_failed_initialization:
  "singleExecution g \<Longrightarrow> clientInstance g = None \<Longrightarrow>
   DB drv cfg g w = ((None, Some (ErrorsNew ''mongo client was not initialized'')), g, w)"
  by (simp add: DB_def initialize_def)

lemma DB_calls_after_failed_initialization:
  "singleExecution g \<Longrightarrow> clientInstance g = None \<Longrightarrow>
   DB_calls drv cfg n g w =
     (replicate n (None, Some (ErrorsNew ''mongo client was not initialized'')), g, w)"
  by (induction n) (simp_all add: DB_after_failed_initialization)

lemma first_DB_failure:
  assumes "DB drv cfg initial_globals w = ((None, Some e), g1, w1)"
  shows "g1 = \<lparr>clientInstance = None, singleExecution = True\<rparr>"
    and "Connect drv (clientOptionsOf cfg) w = (Inl e, w1) \<or>
         (\<exists>cl w0. Connect drv (clientOptionsOf cfg) w = (Inr cl, w0) \<and>
                  Ping drv cl None w0 = (Some e, w1))"
  using assms
  by (auto simp: DB_def initialize_def initial_globals_def
      split: if_splits prod.splits sum.splits option.splits)

section \<open>The claims\<close>

subsection \<open>The decode pipeline\<close>

text \<open>
  C1. Let the cursor hold the records \<open>pending c\<close>, and let every one of them decode, so
  that decoding them one at a time in fetch order gives the list \<open>vs\<close>. Then under every
  schedule of the goroutines under which \<^verbatim>\<open>concurrentDecode\<close> returns, it returns \<open>vs\<close>,
  in that order, and no error; every schedule can be continued to one under which it
  returns; and a list that \<^verbatim>\<open>FindMany\<close> or \<^verbatim>\<open>Aggregate\<close> returns from this cursor is \<open>vs\<close>.
  The number of records is any, zero included.
\<close>

theorem concurrentDecode_keeps_fetch_order:
  assumes "sequentialDecode D (pending c) = Inr vs"
  shows "(\<forall>sched res err c1.
            concurrentDecode D zero sched c = Some ((res, err), c1) \<longrightarrow>
            res = Some vs \<and> err = None) \<and>
         (\<forall>sched. \<exists>more. concurrentDecode D zero (sched @ more) c \<noteq> None) \<and>
         (\<forall>sched xs err c1.
            decodeAndClose D zero sched c = Some ((Some xs, err), c1) \<longrightarrow> xs = vs)"
proof -
  have returned: "res = Some vs \<and> err = None"
    if "concurrentDecode D zero sched c = Some ((res, err), c1)" for sched res err c1
    using assms that by (rule concurrentDecode_all_decoded)
  have returns: "\<exists>more. concurrentDecode D zero (sched @ more) c \<noteq> None" for sched
    by (rule concurrentDecode_returns)
  have outer: "xs = vs"
    if ret: "decodeAndClose D zero sched c = Some ((Some xs, err), c1)" for sched xs err c1
  proof (cases "concurrentDecode D zero sched c")
    case None
    with ret show ?thesis by (simp add: decodeAndClose_def)
  next
    case (Some out)
    obtain res' err' c' where out: "out = ((res', err'), c')" by (metis prod.collapse)
    from concurrentDecode_all_decoded [OF assms Some [unfolded out]]
    have "res' = Some vs" "err' = None" by simp_all
    with ret Some out show ?thesis
      by (simp add: decodeAndClose_def Close_def split: option.splits)
  qed
  from returned returns outer show ?thesis by blast
qed

text \<open>
  Two records, the second goroutine finishing before the first: the result is in fetch
  order.
\<close>

theorem concurrentDecode_keeps_fetch_order_witness:
  "sequentialDecode decodeEmail
      (pending (open_cursor [[(''email'', ''x'')], [(''email'', ''y'')]])) = Inr [''x'', ''y''] \<and>
   concurrentDecode decodeEmail '''' [MainStep, MainStep, GoStep 1, MainStep, GoStep 0]
      (open_cursor [[(''email'', ''x'')], [(''email'', ''y'')]]) =
     Some ((Some [''x'', ''y''], None), open_cursor [])"
proof -
  let ?c = "open_cursor [[(''email'', ''x'')], [(''email'', ''y'')]]"
  let ?sched = "[MainStep, MainStep, GoStep 1, MainStep, GoStep 0]"
  have h: "sequentialDecode decodeEmail (pending ?c) = Inr [''x'', ''y'']"
    by (simp add: open_cursor_def decodeEmail_def)
  have "\<exists>res err. concurrentDecode decodeEmail '''' ?sched ?c = Some ((res, err), open_cursor [])"
    by (simp add: decode_simps open_cursor_def decodeEmail_def)
  then obtain res err
    where r: "concurrentDecode decodeEmail '''' ?sched ?c = Some ((res, err), open_cursor [])"
    by blast
  with concurrentDecode_keeps_fetch_order [OF h, of "''''"]
  have "res = Some [''x'', ''y''] \<and> err = None" by blast
  with r h show ?thesis by simp
qed

text \<open>
  C2. Let the record at some index \<open>k\<close> of the cursor's records fail to decode. Then
  under every schedule under which \<^verbatim>\<open>concurrentDecode\<close> returns, it returns a \<^verbatim>\<open>nil\<close> list
  and an error that is not \<^verbatim>\<open>nil\<close>; every schedule can be continued to one under which it
  returns; and \<^verbatim>\<open>FindMany\<close> and \<^verbatim>\<open>Aggregate\<close>, given this cursor by the driver, return a
  \<^verbatim>\<open>nil\<close> list and an error that is not \<^verbatim>\<open>nil\<close> as well.
\<close>

theorem decode_failure_aborts_all:
  assumes "k < length (pending c)" and "D (pending c ! k) = Inl e"
  shows "(\<forall>sched res err c1.
            concurrentDecode D zero sched c = Some ((res, err), c1) \<longrightarrow>
            res = None \<and> err \<noteq> None) \<and>
         (\<forall>sched. \<exists>more. concurrentDecode D zero (sched @ more) c \<noteq> None) \<and>
         (\<forall>sched res err c1 w2.
            Find coll fltr opts w = (Inr c, w1) \<and>
            FindMany coll D zero sched fltr opts w = Some (((res, err), c1), w2) \<longrightarrow>
            res = None \<and> err \<noteq> None) \<and>
         (\<forall>sched res err c1 w2.
            Aggregate coll pipeline w = (Inr c, w1) \<and>
            AggregateMany coll D zero sched pipeline w = Some (((res, err), c1), w2) \<longrightarrow>
            res = None \<and> err \<noteq> None)"
proof -
  have returned: "res = None \<and> err \<noteq> None"
    if "concurrentDecode D zero sched c = Some ((res, err), c1)" for sched res err c1
    using assms that by (rule concurrentDecode_one_failure)
  have returns: "\<exists>more. concurrentDecode D zero (sched @ more) c \<noteq> None" for sched
    by (rule concurrentDecode_returns)
  have find: "res = None \<and> err \<noteq> None"
    if "Find coll fltr opts w = (Inr c, w1) \<and>
        FindMany coll D zero sched fltr opts w = Some (((res, err), c1), w2)"
    for sched res err c1 w2
  proof -
    from that have "decodeAndClose D zero sched c = Some ((res, err), c1)"
      by (auto simp: FindMany_def split: option.splits)
    with assms show ?thesis by (rule decodeAndClose_one_failure)
  qed
  have aggregate: "res = None \<and> err \<noteq> None"
    if "Aggregate coll pipeline w = (Inr c, w1) \<and>
        AggregateMany coll D zero sched pipeline w = Some (((res, err), c1), w2)"
    for sched res err c1 w2
  proof -
    from that have "decodeAndClose D zero sched c = Some ((res, err), c1)"
      by (auto simp: AggregateMany_def split: option.splits)
    with assms show ?thesis by (rule decodeAndClose_one_failure)
  qed
  from returned returns find aggregate show ?thesis by blast
qed

text \<open>Two records of which the second has no e-mail address.\<close>

theorem decode_failure_aborts_all_witness:
  "1 < length (pending (open_cursor [[(''email'', ''x'')], [(''name'', ''y'')]])) \<and>
   decodeEmail (pending (open_cursor [[(''email'', ''x'')], [(''name'', ''y'')]]) ! 1) =
     Inl (DriverError ''cannot decode: no email'') \<and>
   concurrentDecode decodeEmail '''' [MainStep, MainStep, GoStep 0, GoStep 0, GoStep 0, MainStep]
      (open_cursor [[(''email'', ''x'')], [(''name'', ''y'')]]) =
     Some ((None, Some (DriverError ''cannot decode: no email'')), open_cursor []) \<and>
   Find memory_collection [] () [[(''email'', ''x'')], [(''name'', ''y'')]] =
     (Inr (open_cursor [[(''email'', ''x'')], [(''name'', ''y'')]]),
      [[(''email'', ''x'')], [(''name'', ''y'')]]) \<and>
   FindMany memory_collection decodeEmail ''''
      [MainStep, MainStep, GoStep 0, GoStep 0, GoStep 0, MainStep]
      [] () [[(''email'', ''x'')], [(''name'', ''y'')]] =
     Some (((None, Some (DriverError ''cannot decode: no email'')), Some (open_cursor [])),
           [[(''email'', ''x'')], [(''name'', ''y'')]])"
proof -
  let ?docs = "[[(''email'', ''x'')], [(''name'', ''y'')]]"
  let ?c = "open_cursor ?docs"
  let ?sched = "[MainStep, MainStep, GoStep 0, GoStep 0, GoStep 0, MainStep]"
  have h1: "1 < length (pending ?c)" by (simp add: open_cursor_def)
  have h2: "decodeEmail (pending ?c ! 1) = Inl (DriverError ''cannot decode: no email'')"
    by (simp add: open_cursor_def decodeEmail_def)
  have f: "Find memory_collection [] () ?docs = (Inr ?c, ?docs)"
    by (simp add: memory_collection_def matches_def)
  have "\<exists>res. concurrentDecode decodeEmail '''' ?sched ?c =
      Some ((res, Some (DriverError ''cannot decode: no email'')), open_cursor [])"
    by (simp add: decode_simps open_cursor_def decodeEmail_def)
  then obtain res where r: "concurrentDecode decodeEmail '''' ?sched ?c =
      Some ((res, Some (DriverError ''cannot decode: no email'')), open_cursor [])"
    by blast
  note t = decode_failure_aborts_all [where k = 1 and c = ?c and D = decodeEmail
      and zero = "''''" and coll = memory_collection and fltr = "[]" and opts = "()"
      and w = ?docs and ?w1.0 = ?docs, OF h1 h2]
  from t r have "res = None" by blast
  with r have cd: "concurrentDecode decodeEmail '''' ?sched ?c =
      Some ((None, Some (DriverError ''cannot decode: no email'')), open_cursor [])"
    by simp
  then have "FindMany memory_collection decodeEmail '''' ?sched [] () ?docs =
      Some (((None, Some (DriverError ''cannot decode: no email'')), Some (open_cursor [])), ?docs)"
    using f by (simp add: FindMany_def decodeAndClose_def)
  with h1 h2 cd f show ?thesis by simp
qed

text \<open>
  C5. The claim is that the cursor is closed on every exit path of \<^verbatim>\<open>FindMany\<close> and
  \<^verbatim>\<open>Aggregate\<close> once a cursor was obtained. The code calls \<^verbatim>\<open>cur.Close\<close> on the path where
  decoding succeeded and \<^verbatim>\<open>cur.Err()\<close> is \<^verbatim>\<open>nil\<close> only: when a record fails to decode, and
  when the cursor reports an error, both functions return with the cursor still open.
\<close>

theorem FindMany_leaves_cursor_open:
  "FindMany memory_collection decodeEmail '''' [MainStep, GoStep 0, GoStep 0, MainStep] [] ()
      [[(''name'', ''x'')]] =
     Some (((None, Some (DriverError ''cannot decode: no email'')),
            Some \<lparr>pending = [], failure = None, Err = None, closed = False, closeError = None\<rparr>),
           [[(''name'', ''x'')]]) \<and>
   AggregateMany memory_collection decodeEmail '''' [MainStep, GoStep 0, GoStep 0, MainStep] []
      [[(''name'', ''x'')]] =
     Some (((None, Some (DriverError ''cannot decode: no email'')),
            Some \<lparr>pending = [], failure = None, Err = None, closed = False, closeError = None\<rparr>),
           [[(''name'', ''x'')]]) \<and>
   decodeAndClose decodeEmail '''' [MainStep]
      \<lparr>pending = [], failure = Some (DriverError ''connection reset''), Err = None,
        closed = False, closeError = None\<rparr> =
     Some ((None, Some (DriverError ''connection reset'')),
           Some \<lparr>pending = [], failure = Some (DriverError ''connection reset''),
                 Err = Some (DriverError ''connection reset''), closed = False,
                 closeError = None\<rparr>)"
  by (simp add: FindMany_def AggregateMany_def memory_simps decode_simps decodeEmail_def)

subsection \<open>The connection manager\<close>

text \<open>
  C3, as the code has it. When the first call of \<^verbatim>\<open>DB\<close> fails with the error \<open>e\<close>, then \<open>e\<close>
  is the error of the connection attempt or of the ping, the \<^verbatim>\<open>Once\<close> has run and no
  client is stored; every later call of \<^verbatim>\<open>DB\<close>, whatever the driver would answer then,
  returns a \<^verbatim>\<open>nil\<close> handle with the error ``mongo client was not initialized'', calls the
  driver no more and leaves the state as it is. The first error itself is not kept.
\<close>

theorem DB_failure_is_terminal:
  assumes "DB drv cfg initial_globals w = ((None, Some e), g1, w1)"
  shows "(Connect drv (clientOptionsOf cfg) w = (Inl e, w1) \<or>
          (\<exists>cl w0. Connect drv (clientOptionsOf cfg) w = (Inr cl, w0) \<and>
                   Ping drv cl None w0 = (Some e, w1))) \<and>
         g1 = \<lparr>clientInstance = None, singleExecution = True\<rparr> \<and>
         DB_calls drv' cfg' n g1 w' =
           (replicate n (None, Some (ErrorsNew ''mongo client was not initialized'')), g1, w')"
proof -
  have g1: "g1 = \<lparr>clientInstance = None, singleExecution = True\<rparr>"
    using first_DB_failure(1) [OF assms] .
  then have "singleExecution g1" "clientInstance g1 = None" by simp_all
  then have "DB_calls drv' cfg' n g1 w' =
      (replicate n (None, Some (ErrorsNew ''mongo client was not initialized'')), g1, w')"
    by (rule DB_calls_after_failed_initialization)
  with g1 first_DB_failure(2) [OF assms] show ?thesis by blast
qed

text \<open>
  The first connection attempt is refused; two later calls, made when the backend would
  accept a connection, both get the fixed error and make no attempt.
\<close>

theorem DB_failure_is_terminal_witness:
  "DB refusing_driver local_config initial_globals (0, 0) =
     ((None, Some (DriverError ''connection refused'')),
      \<lparr>clientInstance = None, singleExecution = True\<rparr>, (1, 0)) \<and>
   DB_calls healthy_driver local_config 2 \<lparr>clientInstance = None, singleExecution = True\<rparr> (1, 0) =
     ([(None, Some (ErrorsNew ''mongo client was not initialized'')),
       (None, Some (ErrorsNew ''mongo client was not initialized''))],
      \<lparr>clientInstance = None, singleExecution = True\<rparr>, (1, 0))"
proof -
  have h: "DB refusing_driver local_config initial_globals (0, 0) =
     ((None, Some (DriverError ''connection refused'')),
      \<lparr>clientInstance = None, singleExecution = True\<rparr>, (1::nat, 0::nat))"
    by (simp add: DB_def initialize_def refusing_driver_def initial_globals_def)
  from DB_failure_is_terminal [OF h, of healthy_driver local_config 2 "(1, 0)"] h
  show ?thesis by (simp add: numeral_2_eq_2)
qed

text \<open>
  C3 as stated fails: the first caller receives ``connection refused'', the second caller
  receives ``mongo client was not initialized''.
\<close>

theorem DB_failure_not_repeated_counterexample:
  "fst (DB refusing_driver local_config initial_globals (0, 0)) =
     (None, Some (DriverError ''connection refused'')) \<and>
   fst (DB refusing_driver local_config
          (fst (snd (DB refusing_driver local_config initial_globals (0, 0))))
          (snd (snd (DB refusing_driver local_config initial_globals (0, 0))))) =
     (None, Some (ErrorsNew ''mongo client was not initialized'')) \<and>
   fst (DB refusing_driver local_config
          (fst (snd (DB refusing_driver local_config initial_globals (0, 0))))
          (snd (snd (DB refusing_driver local_config initial_globals (0, 0))))) \<noteq>
   fst (DB refusing_driver local_config initial_globals (0, 0))"
  by (simp add: DB_def initialize_def refusing_driver_def initial_globals_def)

text \<open>
  C9. With no client stored, \<^verbatim>\<open>Check\<close> returns exactly the one error ``the mongo client
  is nil'' and leaves the backend untouched (no ping); with a client stored and a ping
  that succeeds it returns the empty list; with a ping that fails it returns one error,
  whose text ends with the text of the ping's error. In every case the package variables
  are as before.
\<close>

theorem Check_reports_state:
  "(clientInstance g = None \<longrightarrow>
      Check drv g w = ([ErrorsNew ''the mongo client is nil''], g, w)) \<and>
   (clientInstance g = Some cl \<and> Ping drv cl (Some Primary) w = (None, w1) \<longrightarrow>
      Check drv g w = ([], g, w1)) \<and>
   (clientInstance g = Some cl \<and> Ping drv cl (Some Primary) w = (Some err, w1) \<longrightarrow>
      Check drv g w = ([ErrorsNew (''the mongo check has failed: '' @ Error err)], g, w1)) \<and>
   fst (snd (Check drv g w)) = g"
  by (auto simp: Check_def split: option.splits prod.splits)

theorem Check_reports_state_witness:
  "clientInstance initial_globals = None \<and>
   Check unreachable_driver initial_globals (0, 0) =
     ([ErrorsNew ''the mongo client is nil''], initial_globals, (0, 0)) \<and>
   clientInstance \<lparr>clientInstance = Some (Client 0), singleExecution = True\<rparr> = Some (Client 0) \<and>
   Ping healthy_driver (Client 0) (Some Primary) (1, 1) = (None, (1, 2)) \<and>
   Check healthy_driver \<lparr>clientInstance = Some (Client 0), singleExecution = True\<rparr> (1, 1) =
     ([], \<lparr>clientInstance = Some (Client 0), singleExecution = True\<rparr>, (1, 2)) \<and>
   Ping unreachable_driver (Client 0) (Some Primary) (1, 1) =
     (Some (DriverError ''server selection timeout''), (1, 2)) \<and>
   Check unreachable_driver \<lparr>clientInstance = Some (Client 0), singleExecution = True\<rparr> (1, 1) =
     ([ErrorsNew ''the mongo check has failed: server selection timeout''],
      \<lparr>clientInstance = Some (Client 0), singleExecution = True\<rparr>, (1, 2))"
proof -
  let ?g = "\<lparr>clientInstance = Some (Client 0), singleExecution = True\<rparr>"
  have a: "clientInstance initial_globals = None" by (simp add: initial_globals_def)
  have b: "clientInstance ?g = Some (Client 0)"
    by simp
  have c: "Ping healthy_driver (Client 0) (Some Primary) (1, 1) = (None, (1::nat, 2::nat))"
    by (simp add: healthy_driver_def)
  have d: "Ping unreachable_driver (Client 0) (Some Primary) (1, 1) =
     (Some (DriverError ''server selection timeout''), (1::nat, 2::nat))"
    by (simp add: unreachable_driver_def)
  from Check_reports_state [of initial_globals unreachable_driver "(0, 0)"] a
  have 1: "Check unreachable_driver initial_globals (0, 0) =
     ([ErrorsNew ''the mongo client is nil''], initial_globals, (0, 0))" by blast
  from Check_reports_state [of ?g healthy_driver "(1, 1)" "Client 0" "(1, 2)"] b c
  have 2: "Check healthy_driver ?g (1, 1) = ([], ?g, (1, 2))" by blast
  from Check_reports_state [of ?g unreachable_driver "(1, 1)" "Client 0" "(1, 2)"
      "DriverError ''server selection timeout''"] b d
  have 3: "Check unreachable_driver ?g (1, 1) =
     ([ErrorsNew ''the mongo check has failed: server selection timeout''], ?g, (1, 2))"
    by simp
  from a b c d 1 2 3 show ?thesis by blast
qed

text \<open>
  C10. \<^verbatim>\<open>DB\<close> returns a handle and a \<^verbatim>\<open>nil\<close> error, or a \<^verbatim>\<open>nil\<close> handle and an error, never
  \<^verbatim>\<open>nil\<close> and \<^verbatim>\<open>nil\<close>; and when \<^verbatim>\<open>initialize\<close> reports no error and leaves no client stored,
  \<^verbatim>\<open>DB\<close> returns the error ``mongo client was not initialized'' with a \<^verbatim>\<open>nil\<close> handle.
\<close>

theorem DB_never_nil_nil:
  "(case fst (DB drv cfg g w) of
      (Some db, None) \<Rightarrow> True
    | (None, Some err) \<Rightarrow> True
    | _ \<Rightarrow> False) \<and>
   (initialize drv cfg g w = (None, g1, w1) \<and> clientInstance g1 = None \<longrightarrow>
      DB drv cfg g w = ((None, Some (ErrorsNew ''mongo client was not initialized'')), g1, w1))"
  by (auto simp: DB_def split: option.splits prod.splits)

theorem DB_never_nil_nil_witness:
  "initialize healthy_driver local_config \<lparr>clientInstance = None, singleExecution = True\<rparr> (1, 0) =
     (None, \<lparr>clientInstance = None, singleExecution = True\<rparr>, (1, 0)) \<and>
   DB healthy_driver local_config \<lparr>clientInstance = None, singleExecution = True\<rparr> (1, 0) =
     ((None, Some (ErrorsNew ''mongo client was not initialized'')),
      \<lparr>clientInstance = None, singleExecution = True\<rparr>, (1, 0)) \<and>
   fst (DB healthy_driver local_config initial_globals (0, 0)) =
     (Some (Database (Client 0) ''goauth''), None)"
proof -
  let ?g = "\<lparr>clientInstance = None, singleExecution = True\<rparr>"
  have h: "initialize healthy_driver local_config ?g (1, 0) = (None, ?g, (1::nat, 0::nat))"
    by (simp add: initialize_def)
  have k: "fst (DB healthy_driver local_config initial_globals (0, 0)) =
     (Some (Database (Client 0) ''goauth''), None)"
    by (simp add: DB_def initialize_def healthy_driver_def initial_globals_def local_config_def)
  from DB_never_nil_nil [of healthy_driver local_config ?g "(1, 0)" ?g "(1, 0)"] h k
  show ?thesis by simp
qed

subsection \<open>Create and Update\<close>

text \<open>
  C8. When \<^verbatim>\<open>InsertOne\<close> fails with a duplicate-key error, \<^verbatim>\<open>Create\<close> returns
  \<^verbatim>\<open>(false, nil)\<close>; it makes no other call, so the backend is as the failed insertion left
  it, and whatever that insertion left unchanged (the number of stored documents, for a
  database that stores nothing on a failed write) is unchanged by \<^verbatim>\<open>Create\<close>. For any
  other error of \<^verbatim>\<open>InsertOne\<close> it returns \<^verbatim>\<open>(false, err)\<close> with that error, and on success
  \<^verbatim>\<open>(true, nil)\<close>.
\<close>

theorem Create_outcomes:
  "(InsertOne coll t w = (Some err, w1) \<and> IsDuplicateKeyError err \<longrightarrow>
      Create coll t w = ((False, None), w1)) \<and>
   (InsertOne coll t w = (Some err, w1) \<and> IsDuplicateKeyError err \<and> count w1 = count w \<longrightarrow>
      count (snd (Create coll t w)) = count w) \<and>
   (InsertOne coll t w = (Some err, w1) \<and> \<not> IsDuplicateKeyError err \<longrightarrow>
      Create coll t w = ((False, Some err), w1)) \<and>
   (InsertOne coll t w = (None, w1) \<longrightarrow> Create coll t w = ((True, None), w1))"
  by (simp add: Create_def)

text \<open>
  On the in-memory collection: inserting an address that is stored already gives
  \<^verbatim>\<open>(false, nil)\<close> and the same one stored document; inserting a new address gives
  \<^verbatim>\<open>(true, nil)\<close>.
\<close>

theorem Create_outcomes_witness:
  "InsertOne memory_collection [(''email'', ''a@b.c'')]
      [[(''email'', ''a@b.c''), (''name'', ''Ann'')]] =
     (Some (DuplicateKeyError ''E11000 duplicate key error''),
      [[(''email'', ''a@b.c''), (''name'', ''Ann'')]]) \<and>
   IsDuplicateKeyError (DuplicateKeyError ''E11000 duplicate key error'') \<and>
   Create memory_collection [(''email'', ''a@b.c'')]
      [[(''email'', ''a@b.c''), (''name'', ''Ann'')]] =
     ((False, None), [[(''email'', ''a@b.c''), (''name'', ''Ann'')]]) \<and>
   length (snd (Create memory_collection [(''email'', ''a@b.c'')]
      [[(''email'', ''a@b.c''), (''name'', ''Ann'')]])) =
     length [[(''email'', ''a@b.c''), (''name'', ''Ann'')]] \<and>
   InsertOne memory_collection [(''email'', ''b@b.c'')]
      [[(''email'', ''a@b.c''), (''name'', ''Ann'')]] =
     (None, [[(''email'', ''a@b.c''), (''name'', ''Ann'')], [(''email'', ''b@b.c'')]]) \<and>
   Create memory_collection [(''email'', ''b@b.c'')]
      [[(''email'', ''a@b.c''), (''name'', ''Ann'')]] =
     ((True, None), [[(''email'', ''a@b.c''), (''name'', ''Ann'')], [(''email'', ''b@b.c'')]])"
proof -
  let ?w = "[[(''email'', ''a@b.c''), (''name'', ''Ann'')]]"
  let ?e = "DuplicateKeyError ''E11000 duplicate key error''"
  have a: "InsertOne memory_collection [(''email'', ''a@b.c'')] ?w = (Some ?e, ?w)"
    by (simp add: memory_simps)
  have b: "IsDuplicateKeyError ?e" by simp
  have c: "InsertOne memory_collection [(''email'', ''b@b.c'')] ?w =
      (None, ?w @ [[(''email'', ''b@b.c'')]])"
    by (simp add: memory_simps)
  note t1 = Create_outcomes [of memory_collection "[(''email'', ''a@b.c'')]" ?w ?e ?w length]
  note t2 = Create_outcomes [of memory_collection "[(''email'', ''b@b.c'')]" ?w _
      "?w @ [[(''email'', ''b@b.c'')]]"]
  from t1 a b have 1: "Create memory_collection [(''email'', ''a@b.c'')] ?w = ((False, None), ?w)"
    by blast
  from t1 a b
  have 2: "length (snd (Create memory_collection [(''email'', ''a@b.c'')] ?w)) = length ?w"
    by blast
  from t2 c have 3: "Create memory_collection [(''email'', ''b@b.c'')] ?w =
      ((True, None), ?w @ [[(''email'', ''b@b.c'')]])"
    by blast
  from a b c 1 2 3 show ?thesis by simp
qed

text \<open>
  C6. When \<^verbatim>\<open>UpdateOne\<close> reports a duplicate-key error, \<^verbatim>\<open>Update\<close> returns the outcome with
  \<^verbatim>\<open>UniqueError\<close> alone and a \<^verbatim>\<open>nil\<close> error. It returns an outcome with \<^verbatim>\<open>NotFound\<close> exactly
  when the upsert flag is false and the driver reports, without error, that zero documents
  matched, and that outcome has \<^verbatim>\<open>NotFound\<close> alone and a \<^verbatim>\<open>nil\<close> error. \<^verbatim>\<open>Update\<close> passes the
  upsert flag to \<^verbatim>\<open>UpdateOne\<close>; when the flag is true, no document matched and the driver
  reports the document it inserted (\<^verbatim>\<open>UpsertedCount\<close> is 1), the outcome has \<^verbatim>\<open>Inserted\<close>
  alone and a \<^verbatim>\<open>nil\<close> error.
\<close>

theorem Update_outcomes:
  "(UpdateOne coll fltr upd withUpsert w = (Inl err, w1) \<and> IsDuplicateKeyError err \<longrightarrow>
      Update coll fltr upd withUpsert w =
        ((\<lparr>NotFound = False, UniqueError = True, Inserted = False\<rparr>, None), w1)) \<and>
   (NotFound (fst (fst (Update coll fltr upd withUpsert w))) \<longleftrightarrow>
      \<not> withUpsert \<and>
      (\<exists>ur w1. UpdateOne coll fltr upd withUpsert w = (Inr ur, w1) \<and> MatchedCount ur = 0)) \<and>
   (NotFound (fst (fst (Update coll fltr upd withUpsert w))) \<longrightarrow>
      fst (Update coll fltr upd withUpsert w) =
        (\<lparr>NotFound = True, UniqueError = False, Inserted = False\<rparr>, None)) \<and>
   (withUpsert \<and> UpdateOne coll fltr upd withUpsert w = (Inr ur, w1) \<and>
      MatchedCount ur = 0 \<and> UpsertedCount ur = 1 \<longrightarrow>
      Update coll fltr upd withUpsert w =
        ((\<lparr>NotFound = False, UniqueError = False, Inserted = True\<rparr>, None), w1))"
  by (auto simp: Update_def split: prod.splits sum.splits if_splits)

text \<open>
  On the in-memory collection: an update that would give two documents the same address,
  an update that matches nothing without upsert (nothing is stored), and the same update
  with upsert (one document is stored).
\<close>

theorem Update_outcomes_witness:
  "UpdateOne memory_collection [(''name'', ''Bob'')] [(''email'', ''a@b.c'')] False
       [[(''email'', ''a@b.c'')], [(''email'', ''b@b.c''), (''name'', ''Bob'')]] =
     (Inl (DuplicateKeyError ''E11000 duplicate key error''),
      [[(''email'', ''a@b.c'')], [(''email'', ''b@b.c''), (''name'', ''Bob'')]]) \<and>
   Update memory_collection [(''name'', ''Bob'')] [(''email'', ''a@b.c'')] False
       [[(''email'', ''a@b.c'')], [(''email'', ''b@b.c''), (''name'', ''Bob'')]] =
     ((\<lparr>NotFound = False, UniqueError = True, Inserted = False\<rparr>, None),
      [[(''email'', ''a@b.c'')], [(''email'', ''b@b.c''), (''name'', ''Bob'')]]) \<and>
   UpdateOne memory_collection [(''email'', ''a@b.c'')] [(''name'', ''Ann'')] False [] =
     (Inr \<lparr>MatchedCount = 0, ModifiedCount = 0, UpsertedCount = 0\<rparr>, []) \<and>
   Update memory_collection [(''email'', ''a@b.c'')] [(''name'', ''Ann'')] False [] =
     ((\<lparr>NotFound = True, UniqueError = False, Inserted = False\<rparr>, None), []) \<and>
   UpdateOne memory_collection [(''email'', ''a@b.c'')] [(''name'', ''Ann'')] True [] =
     (Inr \<lparr>MatchedCount = 0, ModifiedCount = 0, UpsertedCount = 1\<rparr>,
      [[(''email'', ''a@b.c''), (''name'', ''Ann'')]]) \<and>
   Update memory_collection [(''email'', ''a@b.c'')] [(''name'', ''Ann'')] True [] =
     ((\<lparr>NotFound = False, UniqueError = False, Inserted = True\<rparr>, None),
      [[(''email'', ''a@b.c''), (''name'', ''Ann'')]])"
proof -
  let ?w = "[[(''email'', ''a@b.c'')], [(''email'', ''b@b.c''), (''name'', ''Bob'')]]"
  let ?e = "DuplicateKeyError ''E11000 duplicate key error''"
  let ?none = "\<lparr>MatchedCount = 0, ModifiedCount = 0, UpsertedCount = 0\<rparr>"
  let ?ups = "\<lparr>MatchedCount = 0, ModifiedCount = 0, UpsertedCount = 1\<rparr>"
  let ?new = "[[(''email'', ''a@b.c''), (''name'', ''Ann'')]]"
  let ?f = "[(''email'', ''a@b.c'')]"
  let ?u = "[(''name'', ''Ann'')]"
  have a: "UpdateOne memory_collection [(''name'', ''Bob'')] ?f False ?w = (Inl ?e, ?w)"
    by (simp add: memory_simps)
  have b: "UpdateOne memory_collection ?f ?u False [] = (Inr ?none, [])"
    by (simp add: memory_simps)
  have c: "UpdateOne memory_collection ?f ?u True [] = (Inr ?ups, ?new)"
    by (simp add: memory_simps)
  note t1 = Update_outcomes [of memory_collection "[(''name'', ''Bob'')]" ?f False ?w ?e ?w]
  note t2 = Update_outcomes [of memory_collection ?f ?u False "[]"]
  note t3 = Update_outcomes [of memory_collection ?f ?u True "[]" _ ?new ?ups]
  from t1 a have 1: "Update memory_collection [(''name'', ''Bob'')] ?f False ?w =
      ((\<lparr>NotFound = False, UniqueError = True, Inserted = False\<rparr>, None), ?w)"
    by simp
  from b have "\<exists>ur w1. UpdateOne memory_collection ?f ?u False [] = (Inr ur, w1)
        \<and> MatchedCount ur = 0"
    by simp
  with t2 have nf: "fst (Update memory_collection ?f ?u False []) =
        (\<lparr>NotFound = True, UniqueError = False, Inserted = False\<rparr>, None)"
    by blast
  have "snd (Update memory_collection ?f ?u False []) = []"
    using b by (simp add: Update_def)
  with nf have 2: "Update memory_collection ?f ?u False [] =
      ((\<lparr>NotFound = True, UniqueError = False, Inserted = False\<rparr>, None), [])"
    by (simp add: prod_eq_iff)
  from t3 c have 3: "Update memory_collection ?f ?u True [] =
      ((\<lparr>NotFound = False, UniqueError = False, Inserted = True\<rparr>, None), ?new)"
    by simp
  from a b c 1 2 3 show ?thesis by simp
qed

text \<open>
  C7. No two of the flags \<^verbatim>\<open>NotFound\<close>, \<^verbatim>\<open>UniqueError\<close> and \<^verbatim>\<open>Inserted\<close> are set in an
  outcome that \<^verbatim>\<open>Update\<close> returns; and when the driver reports an update without error
  that is not the not-found case, the outcome has neither \<^verbatim>\<open>NotFound\<close> nor \<^verbatim>\<open>UniqueError\<close>
  and the error is \<^verbatim>\<open>nil\<close>.
\<close>

theorem Update_flags_exclusive:
  "\<not> (NotFound (fst (fst (Update coll fltr upd withUpsert w))) \<and>
       UniqueError (fst (fst (Update coll fltr upd withUpsert w)))) \<and>
   \<not> (NotFound (fst (fst (Update coll fltr upd withUpsert w))) \<and>
       Inserted (fst (fst (Update coll fltr upd withUpsert w)))) \<and>
   \<not> (UniqueError (fst (fst (Update coll fltr upd withUpsert w))) \<and>
       Inserted (fst (fst (Update coll fltr upd withUpsert w)))) \<and>
   (UpdateOne coll fltr upd withUpsert w = (Inr ur, w1) \<and>
      (withUpsert \<or> MatchedCount ur \<noteq> 0) \<longrightarrow>
      \<not> NotFound (fst (fst (Update coll fltr upd withUpsert w))) \<and>
      \<not> UniqueError (fst (fst (Update coll fltr upd withUpsert w))) \<and>
      snd (fst (Update coll fltr upd withUpsert w)) = None)"
  by (auto simp: Update_def split: prod.splits sum.splits if_splits)

text \<open>An update that matches and modifies one stored document: no flag is set.\<close>

theorem Update_flags_exclusive_witness:
  "UpdateOne memory_collection [(''email'', ''a@b.c'')] [(''name'', ''Ann'')] False
      [[(''email'', ''a@b.c'')]] =
     (Inr \<lparr>MatchedCount = 1, ModifiedCount = 1, UpsertedCount = 0\<rparr>,
      [[(''email'', ''a@b.c''), (''name'', ''Ann'')]]) \<and>
   (1 :: int64) \<noteq> 0 \<and>
   fst (Update memory_collection [(''email'', ''a@b.c'')] [(''name'', ''Ann'')] False
      [[(''email'', ''a@b.c'')]]) =
     (\<lparr>NotFound = False, UniqueError = False, Inserted = False\<rparr>, None)"
proof -
  let ?m = "\<lparr>MatchedCount = 1, ModifiedCount = 1, UpsertedCount = 0\<rparr>"
  let ?f = "[(''email'', ''a@b.c'')]"
  let ?u = "[(''name'', ''Ann'')]"
  let ?w = "[[(''email'', ''a@b.c'')]]"
  have a: "UpdateOne memory_collection ?f ?u False ?w =
     (Inr ?m, [[(''email'', ''a@b.c''), (''name'', ''Ann'')]])"
    by (simp add: memory_simps)
  have b: "MatchedCount ?m \<noteq> 0" by simp
  note t = Update_flags_exclusive [of memory_collection ?f ?u False ?w ?m
      "[[(''email'', ''a@b.c''), (''name'', ''Ann'')]]"]
  from t a b have "\<not> NotFound (fst (fst (Update memory_collection ?f ?u False ?w)))
     \<and> \<not> UniqueError (fst (fst (Update memory_collection ?f ?u False ?w)))
     \<and> snd (fst (Update memory_collection ?f ?u False ?w)) = None"
    by blast
  moreover have "Inserted (fst (fst (Update memory_collection ?f ?u False ?w))) = False"
    using a by (simp add: Update_def)
  ultimately have "fst (Update memory_collection ?f ?u False ?w) =
     (\<lparr>NotFound = False, UniqueError = False, Inserted = False\<rparr>, None)"
    by (simp add: prod_eq_iff)
  with a show ?thesis by simp
qed

text \<open>
  C4. The claim is that \<^verbatim>\<open>Create\<close> sets the created-at field of the document before it
  inserts it, and that \<^verbatim>\<open>Update\<close> stamps the updated-at field; the comments of the
  \<^verbatim>\<open>CrudDAO\<close> interface say the same. The code of \<^verbatim>\<open>Create\<close> hands the document to
  \<^verbatim>\<open>InsertOne\<close> as it is, and \<^verbatim>\<open>Update\<close> hands the update to \<^verbatim>\<open>UpdateOne\<close> as it is: a
  document created with the zero time is stored with the zero time, and an update that
  sets a name leaves the zero time in the updated-at field.
\<close>

theorem Create_and_Update_stamp_nothing:
  "Create memory_collection
      [(''email'', ''a@b.c''), (''createdAt'', ''0001-01-01T00:00:00Z'')] [] =
     ((True, None), [[(''email'', ''a@b.c''), (''createdAt'', ''0001-01-01T00:00:00Z'')]]) \<and>
   Update memory_collection [(''email'', ''a@b.c'')] [(''name'', ''Ann'')] False
      [[(''email'', ''a@b.c''), (''updatedAt'', ''0001-01-01T00:00:00Z'')]] =
     ((\<lparr>NotFound = False, UniqueError = False, Inserted = False\<rparr>, None),
      [[(''email'', ''a@b.c''), (''updatedAt'', ''0001-01-01T00:00:00Z''), (''name'', ''Ann'')]])"
  by (simp add: Create_def Update_def memory_simps)

end
